theory Spec2Isabelle
  imports Complex_Main "HOL-Library.Word"
begin

section \<open>Shared vocabulary\<close>

text \<open>
  Doubles are idealised as the reals of HOL, vectors of doubles as lists of reals, and
  \<open>size_t\<close> as a machine word of an arbitrary but fixed width \<open>'w\<close>.
  The errors that training and classification report are values of the following type.
\<close>

datatype error = InvalidInput | DimensionMismatch

section \<open>Exponential loss\<close>

text \<open>
  File \<^verbatim>\<open>methods/adaboost/loss_functions/exponential.hpp\<close>.

  \<open>arma::max\<close> belongs to the linear-algebra library, not to this repository. On a
  vector with elements it is the largest entry, found by a left-to-right scan. What it
  yields on a vector without elements depends on how the library is built, and
  \<^verbatim>\<open>exponential.hpp\<close> has no size check of its own: that value is the parameter
  \<open>empty_max\<close>, about which nothing is assumed. A build of the library with its run-time
  checks enabled reports a vector without elements as an error instead of yielding a
  value; that configuration is outside this model.
\<close>

fun arma_max :: "real \<Rightarrow> real list \<Rightarrow> real" where
  "arma_max empty_max [] = empty_max"
| "arma_max empty_max (x # xs) = fold max xs x"

text \<open>
  Lines 34 and 35 of the source: the guard that replaces a zero maximum by one.
\<close>

definition guard_zero :: "real \<Rightarrow> real" where
  "guard_zero max_error = (if max_error = 0 then 1 else max_error)"

text \<open>
  \<open>ExponentialLoss::Calculate\<close>, lines 30 to 38. The function has no failing branch.
\<close>

definition Calculate :: "real \<Rightarrow> real list \<Rightarrow> real list" where
  "Calculate empty_max error_vec =
     (let max_error = guard_zero (arma_max empty_max error_vec)
      in map (\<lambda>e. 1 - exp (- \<bar>e\<bar> / max_error)) error_vec)"

section \<open>Dense matrices\<close>

text \<open>
  A dense matrix as the linear-algebra library stores it: its shape and its elements in
  column-major order. The records are parametric in the type of sizes, which every
  operation below takes to be \<open>'w word\<close>.
\<close>

record 'size_t mat =
  n_rows :: 'size_t
  n_cols :: 'size_t
  mem :: "real list"

definition elem_at :: "'w::len word mat \<Rightarrow> nat \<Rightarrow> nat \<Rightarrow> real" where
  "elem_at M i j = mem M ! (i + j * unat (n_rows M))"

definition col :: "'w::len word mat \<Rightarrow> nat \<Rightarrow> real list" where
  "col M j = map (\<lambda>i. elem_at M i j) [0..<unat (n_rows M)]"

definition row :: "'w::len word mat \<Rightarrow> nat \<Rightarrow> real list" where
  "row M i = map (\<lambda>j. elem_at M i j) [0..<unat (n_cols M)]"

section \<open>Softmax regression: the class declaration\<close>

text \<open>
  File \<^verbatim>\<open>softmax_regression.hpp\<close>. The private members of the class, lines 211 to 220.
\<close>

record 'size_t SoftmaxRegression =
  parameters :: "'size_t mat"
  inputSize :: 'size_t
  numClasses :: 'size_t
  lambda :: real
  fitIntercept :: bool

text \<open>
  \<open>FeatureSize\<close>, lines 194 to 196. The subtraction is the one of \<open>size_t\<close>.
\<close>

definition FeatureSize :: "'w::len word SoftmaxRegression \<Rightarrow> 'w word" where
  "FeatureSize s =
     (if fitIntercept s then n_cols (parameters s) - 1 else n_cols (parameters s))"

text \<open>
  The accessors of lines 176 to 191. A reading accessor returns the field; an accessor
  that returns a mutable reference is modelled by the assignment made through it.
\<close>

definition NumClasses :: "'w::len word SoftmaxRegression \<Rightarrow> 'w word" where
  "NumClasses s = numClasses s"

definition NumClasses_assign ::
  "'w::len word \<Rightarrow> 'w word SoftmaxRegression \<Rightarrow> 'w word SoftmaxRegression" where
  "NumClasses_assign v s = s\<lparr>numClasses := v\<rparr>"

definition Lambda :: "'w::len word SoftmaxRegression \<Rightarrow> real" where
  "Lambda s = lambda s"

definition Lambda_assign ::
  "real \<Rightarrow> 'w::len word SoftmaxRegression \<Rightarrow> 'w word SoftmaxRegression" where
  "Lambda_assign v s = s\<lparr>lambda := v\<rparr>"

definition FitIntercept :: "'w::len word SoftmaxRegression \<Rightarrow> bool" where
  "FitIntercept s = fitIntercept s"

definition Parameters :: "'w::len word SoftmaxRegression \<Rightarrow> 'w word mat" where
  "Parameters s = parameters s"

section \<open>Softmax regression: classification and training\<close>

text \<open>
  The header declares \<open>Classify\<close> and \<open>Train\<close>; their bodies are in
  \<^verbatim>\<open>softmax_regression_impl.hpp\<close>, and the objective function in
  \<^verbatim>\<open>softmax_regression_function.hpp\<close>. The definitions of this section follow the
  specification's description of them.
\<close>

text \<open>
  Modelled from the spec: the score vector \<open>z = W x\<close> of the missing
  \<open>Classify\<close> bodies, with \<open>x\<close> augmented by a trailing \<open>1\<close> if the intercept is fit;
  row \<open>k\<close> of \<open>W\<close> is the weight vector of class \<open>k\<close>.
\<close>

definition dot :: "real list \<Rightarrow> real list \<Rightarrow> real" where
  "dot xs ys = sum_list (map2 (*) xs ys)"

definition augment :: "bool \<Rightarrow> real list \<Rightarrow> real list" where
  "augment fit x = (if fit then x @ [1] else x)"

definition scores :: "'w::len word mat \<Rightarrow> bool \<Rightarrow> real list \<Rightarrow> real list" where
  "scores W fit x = map (\<lambda>k. dot (row W k) (augment fit x)) [0..<unat (n_rows W)]"

text \<open>
  Modelled from the spec: the arg-max of the missing \<open>Classify\<close> bodies, the first index
  achieving the maximum (lowest class index wins). The scan keeps the best index and
  value seen so far and replaces them only by a strictly larger entry.
\<close>

fun argmax_from :: "real list \<Rightarrow> nat \<Rightarrow> nat \<Rightarrow> real \<Rightarrow> nat" where
  "argmax_from [] k best bestv = best"
| "argmax_from (z # zs) k best bestv =
     (if bestv < z then argmax_from zs (Suc k) k z else argmax_from zs (Suc k) best bestv)"

fun argmax :: "real list \<Rightarrow> nat" where
  "argmax [] = 0"
| "argmax (z # zs) = argmax_from zs 1 0 z"

text \<open>
  Modelled from the spec: the probabilities of the missing objective function,
  \<open>P(k | x, W) = exp (z\<^sub>k - max z) / (\<Sum>j. exp (z\<^sub>j - max z))\<close>, with the subtraction of the
  maximum score.
\<close>

fun softmax :: "real list \<Rightarrow> real list" where
  "softmax [] = []"
| "softmax (z # zs) =
     (let m = fold max zs z;
          es = map (\<lambda>v. exp (v - m)) (z # zs)
      in map (\<lambda>e. e / sum_list es) es)"

text \<open>
  Modelled from the spec: the missing body of \<open>Classify(dataset, probabilities)\<close>. A
  dataset whose points do not have \<open>FeatureSize()\<close> entries is a dimension mismatch;
  otherwise column \<open>j\<close> of the result holds the probabilities of sample \<open>j\<close>, one row for
  each row of the parameter matrix.
\<close>

definition Classify_probabilities ::
  "'w::len word SoftmaxRegression \<Rightarrow> 'w word mat \<Rightarrow> error + 'w word mat" where
  "Classify_probabilities s dataset =
     (if n_rows dataset \<noteq> FeatureSize s then Inl DimensionMismatch
      else Inr \<lparr>n_rows = n_rows (parameters s), n_cols = n_cols dataset,
                mem = concat (map (\<lambda>j. softmax (scores (parameters s) (fitIntercept s) (col dataset j)))
                                  [0..<unat (n_cols dataset)])\<rparr>)"

text \<open>
  Modelled from the spec: the missing body of \<open>Classify(dataset, labels)\<close>. The label of a
  sample is the arg-max of its score vector; no normalisation takes place.
\<close>

definition Classify_labels ::
  "'w::len word SoftmaxRegression \<Rightarrow> 'w word mat \<Rightarrow> error + 'w word list" where
  "Classify_labels s dataset =
     (if n_rows dataset \<noteq> FeatureSize s then Inl DimensionMismatch
      else Inr (map (\<lambda>j. of_nat (argmax (scores (parameters s) (fitIntercept s) (col dataset j))))
                    [0..<unat (n_cols dataset)]))"

text \<open>
  Modelled from the spec: the missing body of \<open>Classify(dataset, labels, probabilities)\<close>,
  which produces the labels and additionally the probability matrix.
\<close>

definition Classify_labels_probabilities ::
  "'w::len word SoftmaxRegression \<Rightarrow> 'w word mat \<Rightarrow> error + 'w word list \<times> 'w word mat" where
  "Classify_labels_probabilities s dataset =
     (case Classify_probabilities s dataset of
        Inl err \<Rightarrow> Inl err
      | Inr probabilities \<Rightarrow>
          (case Classify_labels s dataset of
             Inl err \<Rightarrow> Inl err
           | Inr labels \<Rightarrow> Inr (labels, probabilities)))"

text \<open>
  Modelled from the spec: the missing objective function, as far as \<open>Train\<close> needs it: the
  data it is bound to.
\<close>

record 'size_t ObjectiveFunction =
  f_data :: "'size_t mat"
  f_labels :: "'size_t list"
  f_numClasses :: 'size_t
  f_lambda :: real
  f_fitIntercept :: bool

text \<open>
  Modelled from the spec: the missing body of \<open>Train\<close>. The precondition
  (\<open>data.columns = labels.length\<close>, every label below \<open>numClasses\<close>) is checked first and
  its violation reported as \<open>InvalidInput\<close>. Otherwise the objective function is built,
  the optimizer runs from the current parameters when their shape matches and from a
  fresh initial point when it does not, its result is stored and the final objective
  value returned. The optimizer and the random initial point are external and therefore
  arguments. The result pairs what the call returns with the object after the call.
\<close>

definition Train ::
  "'w::len word SoftmaxRegression \<Rightarrow> 'w word mat \<Rightarrow> 'w word list \<Rightarrow> 'w word \<Rightarrow>
   ('w word ObjectiveFunction \<Rightarrow> 'w word mat \<Rightarrow> 'w word mat \<times> real) \<Rightarrow>
   ('w word ObjectiveFunction \<Rightarrow> 'w word mat) \<Rightarrow>
   (error + real) \<times> 'w word SoftmaxRegression" where
  "Train s data labels numClasses' optimizer GetInitialPoint =
     (if unat (n_cols data) \<noteq> length labels \<or> \<not> list_all (\<lambda>l. l < numClasses') labels
      then (Inl InvalidInput, s)
      else
        (let regressor = \<lparr>f_data = data, f_labels = labels, f_numClasses = numClasses',
                          f_lambda = lambda s, f_fitIntercept = fitIntercept s\<rparr>;
             effective = (if fitIntercept s then n_rows data + 1 else n_rows data);
             start = (if n_rows (parameters s) = numClasses' \<and> n_cols (parameters s) = effective
                      then parameters s else GetInitialPoint regressor);
             (final, out) = optimizer regressor start
         in (Inr out, s\<lparr>parameters := final\<rparr>)))"

section \<open>Concrete instances\<close>

text \<open>
  On 64-bit sizes: a two-class model over one feature without intercept, a dataset of
  one point, the probabilities the model gives that point, an instance with intercept
  whose parameter matrix was never allocated, an optimizer that returns its starting
  point and an initial point of zeros.
\<close>

definition two_class_model :: "64 word SoftmaxRegression" where
  "two_class_model =
     \<lparr>parameters = \<lparr>n_rows = 2, n_cols = 1, mem = [1, 2]\<rparr>,
      inputSize = 1, numClasses = 2, lambda = 1 / 10000, fitIntercept = False\<rparr>"

definition one_point :: "64 word mat" where
  "one_point = \<lparr>n_rows = 1, n_cols = 1, mem = [1]\<rparr>"

definition one_point_probabilities :: "64 word mat" where
  "one_point_probabilities =
     \<lparr>n_rows = 2, n_cols = 1, mem = [exp (- 1) / (exp (- 1) + 1), 1 / (exp (- 1) + 1)]\<rparr>"

definition unallocated_model :: "64 word SoftmaxRegression" where
  "unallocated_model =
     \<lparr>parameters = \<lparr>n_rows = 0, n_cols = 0, mem = []\<rparr>,
      inputSize = 0, numClasses = 0, lambda = 1 / 10000, fitIntercept = True\<rparr>"

definition keep_point :: "64 word ObjectiveFunction \<Rightarrow> 64 word mat \<Rightarrow> 64 word mat \<times> real" where
  "keep_point f W = (W, 0)"

definition zero_point :: "64 word ObjectiveFunction \<Rightarrow> 64 word mat" where
  "zero_point f =
     (let effective = (if f_fitIntercept f then n_rows (f_data f) + 1 else n_rows (f_data f))
      in \<lparr>n_rows = f_numClasses f, n_cols = effective,
          mem = replicate (unat (f_numClasses f) * unat effective) 0\<rparr>)"

section \<open>Properties of the exponential loss\<close>

lemma arma_max_Max:
  assumes "e \<noteq> []"
  shows "arma_max empty_max e = Max (set e)"
proof (cases e)
  case Nil
  with assms show ?thesis by simp
next
  case (Cons x xs)
  have "fold max xs x = Max (set (x # xs))"
    by (rule Max.set_eq_fold [symmetric])
  with Cons show ?thesis by simp
qed




text \<open>
  C7: \<open>Calculate\<close> applied to the all-zero vector \<open>[0, 0, 0]\<close> returns \<open>[0, 0, 0]\<close>.
\<close>

theorem Calculate_zero_vector: "Calculate empty_max [0, 0, 0] = [0, 0, 0]"
  by (simp add: Calculate_def guard_zero_def)



text \<open>
  C9: for every error vector whose maximum entry is strictly negative, \<open>Calculate\<close>
  divides by that negative maximum: every returned entry equals
  \<open>1 - exp (\<bar>e\<^sub>i\<bar> / \<bar>m\<bar>)\<close> and is strictly negative, so the output does not lie in
  \<open>[0, 1)\<close>.
\<close>

theorem Calculate_negative_max:
  assumes "e \<noteq> []" and "Max (set e) < 0"
  shows "\<exists>loss. Calculate empty_max e = loss \<and> length loss = length e \<and>
     (\<forall>i<length e. loss ! i = 1 - exp (\<bar>e ! i\<bar> / \<bar>Max (set e)\<bar>) \<and> loss ! i < 0)"
proof -
  let ?m = "Max (set e)"
  have ne: "?m \<noteq> 0" using assms(2) by (rule less_imp_neq)
  then have mpos: "0 < \<bar>?m\<bar>" by simp
  have calc: "Calculate empty_max e = map (\<lambda>x. 1 - exp (- \<bar>x\<bar> / ?m)) e"
    using assms(1) ne by (simp add: Calculate_def arma_max_Max guard_zero_def)
  have ent: "1 - exp (- \<bar>e ! i\<bar> / ?m) = 1 - exp (\<bar>e ! i\<bar> / \<bar>?m\<bar>) \<and>
             1 - exp (\<bar>e ! i\<bar> / \<bar>?m\<bar>) < 0"
    if "i < length e" for i
  proof -
    have "e ! i \<le> ?m" using that by simp
    then have "e ! i < 0" using assms(2) by (rule le_less_trans)
    then have pos: "0 < \<bar>e ! i\<bar>" by simp
    have absm: "\<bar>?m\<bar> = - ?m" using assms(2) by (rule abs_of_neg)
    have "- \<bar>e ! i\<bar> / ?m = \<bar>e ! i\<bar> / (- ?m)" by simp
    then have eq: "- \<bar>e ! i\<bar> / ?m = \<bar>e ! i\<bar> / \<bar>?m\<bar>"
      by (simp only: absm)
    have "0 < \<bar>e ! i\<bar> / \<bar>?m\<bar>" using pos mpos by (rule divide_pos_pos)
    then have "1 < exp (\<bar>e ! i\<bar> / \<bar>?m\<bar>)" by simp
    then have "1 - exp (\<bar>e ! i\<bar> / \<bar>?m\<bar>) < 0" by simp
    with eq show ?thesis by (simp only: simp_thms)
  qed
  have "\<forall>i<length e.
      map (\<lambda>x. 1 - exp (- \<bar>x\<bar> / ?m)) e ! i = 1 - exp (\<bar>e ! i\<bar> / \<bar>?m\<bar>) \<and>
      map (\<lambda>x. 1 - exp (- \<bar>x\<bar> / ?m)) e ! i < 0"
  proof (intro allI impI)
    fix i
    assume i: "i < length e"
    have "map (\<lambda>x. 1 - exp (- \<bar>x\<bar> / ?m)) e ! i = 1 - exp (- \<bar>e ! i\<bar> / ?m)"
      using i by (rule nth_map)
    with ent [OF i]
    show "map (\<lambda>x. 1 - exp (- \<bar>x\<bar> / ?m)) e ! i = 1 - exp (\<bar>e ! i\<bar> / \<bar>?m\<bar>) \<and>
          map (\<lambda>x. 1 - exp (- \<bar>x\<bar> / ?m)) e ! i < 0"
      by (simp only: simp_thms)
  qed
  with calc show ?thesis by (intro exI conjI) (assumption, simp, assumption)
qed

text \<open>
  The negative case at \<open>[-1, -2]\<close>: the maximum is \<open>-1\<close> and both losses are negative.
\<close>

theorem Calculate_negative_max_witness:
  "[- 1, - 2 :: real] \<noteq> [] \<and> Max (set [- 1, - 2 :: real]) < 0 \<and>
   Calculate 0 [- 1, - 2] = [1 - exp 1, 1 - exp 2] \<and>
   1 - exp (1 :: real) < 0 \<and> 1 - exp (2 :: real) < 0"
  using Calculate_negative_max [of "[- 1, - 2]" 0]
  by (simp add: Calculate_def guard_zero_def)

section \<open>Properties of the class declaration\<close>

text \<open>
  C5: \<open>FeatureSize()\<close> returns the number of columns of the parameter matrix minus \<open>1\<close>
  when \<open>fitIntercept\<close> is true and exactly the number of columns when it is false. The
  subtraction is the one of \<open>size_t\<close>; read as a natural number the result is one less
  than a non-zero column count.
\<close>

theorem FeatureSize_columns:
  "FeatureSize s =
     (if fitIntercept s then n_cols (parameters s) - 1 else n_cols (parameters s)) \<and>
   unat (FeatureSize s) =
     (if fitIntercept s
      then (if n_cols (parameters s) = 0 then 2 ^ LENGTH('w) - 1
            else unat (n_cols (parameters s)) - 1)
      else unat (n_cols (parameters s)))"
  for s :: "'w::len word SoftmaxRegression"
  by (simp add: FeatureSize_def unat_minus_one unsigned_minus_1_eq_mask mask_eq_exp_minus_1)

text \<open>
  The feature size of a model without intercept and one column, and of the same model
  with the intercept switched on.
\<close>

theorem FeatureSize_columns_witness:
  "unat (FeatureSize two_class_model) = 1 \<and>
   unat (FeatureSize (two_class_model\<lparr>fitIntercept := True\<rparr>)) = 0"
  using FeatureSize_columns [of two_class_model]
    FeatureSize_columns [of "two_class_model\<lparr>fitIntercept := True\<rparr>"]
  by (simp add: two_class_model_def)

text \<open>
  C10: if \<open>fitIntercept\<close> is true and the parameter matrix has zero columns,
  \<open>FeatureSize()\<close> computes \<open>0 - 1\<close> in \<open>size_t\<close> arithmetic and returns \<open>2 ^ w - 1\<close>, the
  maximum \<open>size_t\<close> value, instead of failing.
\<close>

theorem FeatureSize_wraps:
  fixes s :: "'w::len word SoftmaxRegression"
  assumes "fitIntercept s" and "n_cols (parameters s) = 0"
  shows "unat (FeatureSize s) = 2 ^ LENGTH('w) - 1 \<and> (\<forall>x. x \<le> FeatureSize s)"
  using assms by (simp add: FeatureSize_def unsigned_minus_1_eq_mask mask_eq_exp_minus_1)

text \<open>
  The wrap-around on 64-bit sizes.
\<close>

theorem FeatureSize_wraps_witness:
  "fitIntercept unallocated_model \<and> n_cols (parameters unallocated_model) = 0 \<and>
   unat (FeatureSize unallocated_model) = 18446744073709551615"
proof -
  have h1: "fitIntercept unallocated_model"
    and h2: "n_cols (parameters unallocated_model) = 0"
    by (simp_all add: unallocated_model_def)
  from FeatureSize_wraps [OF h1 h2] h1 h2 show ?thesis by simp
qed

text \<open>
  C8: assigning a new value through the mutable accessors \<open>Lambda()\<close> or
  \<open>NumClasses()\<close> changes only the \<open>lambda\<close> or the \<open>numClasses\<close> field respectively; the
  stored parameter matrix and the \<open>fitIntercept\<close> flag, and every other field, are
  unchanged by either assignment.
\<close>

theorem accessor_assign_frame:
  "Parameters (Lambda_assign v s) = Parameters s \<and>
   FitIntercept (Lambda_assign v s) = FitIntercept s \<and>
   NumClasses (Lambda_assign v s) = NumClasses s \<and>
   inputSize (Lambda_assign v s) = inputSize s \<and>
   Lambda (Lambda_assign v s) = v \<and>
   Parameters (NumClasses_assign n s) = Parameters s \<and>
   FitIntercept (NumClasses_assign n s) = FitIntercept s \<and>
   Lambda (NumClasses_assign n s) = Lambda s \<and>
   inputSize (NumClasses_assign n s) = inputSize s \<and>
   NumClasses (NumClasses_assign n s) = n"
  by (simp add: Lambda_assign_def NumClasses_assign_def Lambda_def NumClasses_def
      Parameters_def FitIntercept_def)

section \<open>Properties of classification and training\<close>

subsection \<open>The arg-max scan\<close>

lemma argmax_from_mono:
  assumes "\<And>a b. f a < f b \<longleftrightarrow> a < (b::real)"
  shows "argmax_from (map f zs) k best (f v) = argmax_from zs k best v"
  by (induction zs arbitrary: k best v) (simp_all add: assms)

lemma argmax_mono:
  assumes "\<And>a b. f a < f b \<longleftrightarrow> a < (b::real)"
  shows "argmax (map f zs) = argmax zs"
  by (cases zs) (simp_all add: argmax_from_mono [OF assms])

text \<open>
  The invariant of the scan: \<open>pre\<close> is the part already seen, \<open>best\<close> the first index of
  its maximum \<open>bestv\<close>.
\<close>

lemma argmax_from_first_max:
  assumes "k = length pre" and "best < k" and "bestv = pre ! best"
    and "\<forall>x\<in>set pre. x \<le> bestv" and "\<forall>i<best. pre ! i < bestv"
  shows "argmax_from zs k best bestv < length (pre @ zs) \<and>
         (\<forall>x\<in>set (pre @ zs). x \<le> (pre @ zs) ! argmax_from zs k best bestv) \<and>
         (\<forall>i<argmax_from zs k best bestv.
            (pre @ zs) ! i < (pre @ zs) ! argmax_from zs k best bestv)"
  using assms
proof (induction zs arbitrary: pre k best bestv)
  case Nil
  then show ?case by simp
next
  case (Cons z zs)
  show ?case
  proof (cases "bestv < z")
    case True
    have "argmax_from zs (Suc k) k z < length ((pre @ [z]) @ zs) \<and>
         (\<forall>x\<in>set ((pre @ [z]) @ zs). x \<le> ((pre @ [z]) @ zs) ! argmax_from zs (Suc k) k z) \<and>
         (\<forall>i<argmax_from zs (Suc k) k z.
            ((pre @ [z]) @ zs) ! i < ((pre @ [z]) @ zs) ! argmax_from zs (Suc k) k z)"
    proof (rule Cons.IH)
      show "Suc k = length (pre @ [z])" using Cons.prems(1) by simp
      show "k < Suc k" by simp
      show "z = (pre @ [z]) ! k" using Cons.prems(1) by simp
      show "\<forall>x\<in>set (pre @ [z]). x \<le> z" using Cons.prems(4) True by fastforce
      show "\<forall>i<k. (pre @ [z]) ! i < z"
      proof (intro allI impI)
        fix i assume "i < k"
        then have "(pre @ [z]) ! i = pre ! i" and "pre ! i \<in> set pre"
          using Cons.prems(1) by (simp_all add: nth_append)
        with Cons.prems(4) True show "(pre @ [z]) ! i < z" by fastforce
      qed
    qed
    with True show ?thesis by simp
  next
    case False
    have "argmax_from zs (Suc k) best bestv < length ((pre @ [z]) @ zs) \<and>
         (\<forall>x\<in>set ((pre @ [z]) @ zs).
            x \<le> ((pre @ [z]) @ zs) ! argmax_from zs (Suc k) best bestv) \<and>
         (\<forall>i<argmax_from zs (Suc k) best bestv.
            ((pre @ [z]) @ zs) ! i < ((pre @ [z]) @ zs) ! argmax_from zs (Suc k) best bestv)"
    proof (rule Cons.IH)
      show "Suc k = length (pre @ [z])" using Cons.prems(1) by simp
      show "best < Suc k" using Cons.prems(2) by simp
      show "bestv = (pre @ [z]) ! best" using Cons.prems(1,2,3) by (simp add: nth_append)
      show "\<forall>x\<in>set (pre @ [z]). x \<le> bestv" using Cons.prems(4) False by auto
      show "\<forall>i<best. (pre @ [z]) ! i < bestv"
        using Cons.prems(1,2,5) by (simp add: nth_append)
    qed
    with False show ?thesis by simp
  qed
qed

text \<open>
  On a non-empty vector \<open>argmax\<close> is the first index that holds the maximum.
\<close>

lemma argmax_first_max:
  assumes "xs \<noteq> []"
  shows "argmax xs < length xs \<and> xs ! argmax xs = Max (set xs) \<and>
         (\<forall>i<argmax xs. xs ! i < Max (set xs))"
proof (cases xs)
  case Nil
  with assms show ?thesis by simp
next
  case (Cons z zs)
  have "argmax_from zs 1 0 z < length ([z] @ zs) \<and>
         (\<forall>x\<in>set ([z] @ zs). x \<le> ([z] @ zs) ! argmax_from zs 1 0 z) \<and>
         (\<forall>i<argmax_from zs 1 0 z. ([z] @ zs) ! i < ([z] @ zs) ! argmax_from zs 1 0 z)"
    by (rule argmax_from_first_max) simp_all
  then have lt: "argmax xs < length xs"
    and ub: "\<forall>x\<in>set xs. x \<le> xs ! argmax xs"
    and first: "\<forall>i<argmax xs. xs ! i < xs ! argmax xs"
    using Cons by simp_all
  have "Max (set xs) = xs ! argmax xs"
  proof (rule Max_eqI)
    show "finite (set xs)" by simp
    show "y \<le> xs ! argmax xs" if "y \<in> set xs" for y using ub that by blast
    show "xs ! argmax xs \<in> set xs" using lt by simp
  qed
  with lt first show ?thesis by simp
qed

subsection \<open>The softmax\<close>

lemma sum_exp_pos: "zs \<noteq> [] \<Longrightarrow> 0 < sum_list (map (\<lambda>v. exp (v - m :: real)) zs)"
proof (induction zs)
  case Nil
  then show ?case by simp
next
  case (Cons z zs)
  have "0 \<le> sum_list (map (\<lambda>v. exp (v - m)) zs)"
    by (rule sum_list_nonneg) auto
  moreover have "0 < exp (z - m)" by simp
  ultimately have "0 < exp (z - m) + sum_list (map (\<lambda>v. exp (v - m)) zs)"
    by (rule add_pos_nonneg [rotated])
  then show ?case by simp
qed

lemma softmax_map:
  "softmax (z # zs) =
     map (\<lambda>v. exp (v - fold max zs z) / sum_list (map (\<lambda>v. exp (v - fold max zs z)) (z # zs)))
       (z # zs)"
  by (simp add: Let_def)

lemma length_softmax: "length (softmax zs) = length zs"
  by (cases zs) (simp_all add: Let_def)

text \<open>
  The softmax is strictly increasing in each score, so it keeps the arg-max.
\<close>

lemma argmax_softmax: "argmax (softmax zs) = argmax zs"
proof (cases zs)
  case Nil
  then show ?thesis by simp
next
  case (Cons z zs')
  let ?m = "fold max zs' z"
  let ?S = "sum_list (map (\<lambda>v. exp (v - ?m)) (z # zs'))"
  have S: "0 < ?S" by (rule sum_exp_pos) simp
  have mono: "exp (a - ?m) / ?S < exp (b - ?m) / ?S \<longleftrightarrow> a < b" for a b
    using S by (simp add: divide_less_cancel)
  have "argmax (map (\<lambda>v. exp (v - ?m) / ?S) (z # zs')) = argmax (z # zs')"
    by (rule argmax_mono) (rule mono)
  then show ?thesis unfolding Cons softmax_map .
qed

lemma sum_list_divide_const: "sum_list (map (\<lambda>e. e / c) es) = sum_list es / (c::real)"
  by (induction es) (simp_all add: add_divide_distrib)

lemma softmax_sum:
  assumes "zs \<noteq> []"
  shows "sum_list (softmax zs) = 1"
proof (cases zs)
  case Nil
  with assms show ?thesis by simp
next
  case (Cons z zs')
  let ?m = "fold max zs' z"
  let ?es = "map (\<lambda>v. exp (v - ?m)) (z # zs')"
  have S: "0 < sum_list ?es" by (rule sum_exp_pos) simp
  have "softmax (z # zs') = map (\<lambda>e. e / sum_list ?es) ?es"
    by (simp only: softmax.simps Let_def)
  then have "sum_list (softmax (z # zs')) = sum_list ?es / sum_list ?es"
    by (simp only: sum_list_divide_const)
  with S Cons show ?thesis by simp
qed

lemma softmax_pos: "\<forall>p\<in>set (softmax zs). 0 < p"
proof (cases zs)
  case Nil
  then show ?thesis by simp
next
  case (Cons z zs')
  have "0 < sum_list (map (\<lambda>v. exp (v - fold max zs' z)) (z # zs'))"
    by (rule sum_exp_pos) simp
  then show ?thesis
    unfolding Cons softmax_map by (auto intro: divide_pos_pos)
qed

subsection \<open>Columns of the probability matrix\<close>

lemma concat_nth_uniform:
  assumes "\<forall>c\<in>set cs. length c = n" and "j < length cs" and "i < n"
  shows "concat cs ! (i + j * n) = cs ! j ! i"
  using assms
proof (induction cs arbitrary: j)
  case Nil
  then show ?case by simp
next
  case (Cons c cs)
  then have len: "length c = n" by simp
  show ?case
  proof (cases j)
    case 0
    with Cons.prems len show ?thesis by (simp add: nth_append)
  next
    case (Suc j')
    with Cons.prems have "concat cs ! (i + j' * n) = cs ! j' ! i"
      by (intro Cons.IH) simp_all
    with Suc len show ?thesis by (simp add: nth_append)
  qed
qed

lemma col_of_concat:
  assumes "\<forall>c\<in>set cs. length c = unat nr" and "j < length cs"
  shows "col \<lparr>n_rows = nr, n_cols = nc, mem = concat cs\<rparr> j = cs ! j"
proof -
  have len: "length (cs ! j) = unat nr" using assms by simp
  have "col \<lparr>n_rows = nr, n_cols = nc, mem = concat cs\<rparr> j
      = map (\<lambda>i. concat cs ! (i + j * unat nr)) [0..<unat nr]"
    by (simp add: col_def elem_at_def)
  also have "\<dots> = map (\<lambda>i. cs ! j ! i) [0..<unat nr]"
    using assms by (simp add: concat_nth_uniform)
  also have "\<dots> = cs ! j"
    using map_nth [of "cs ! j"] by (simp only: len)
  finally show ?thesis .
qed

lemma length_scores: "length (scores W fit x) = unat (n_rows W)"
  by (simp add: scores_def)

lemma col_Classify_probabilities:
  assumes "n_rows dataset = FeatureSize s" and "j < unat (n_cols dataset)"
  shows "\<exists>P. Classify_probabilities s dataset = Inr P \<and>
     col P j = softmax (scores (parameters s) (fitIntercept s) (col dataset j))"
proof -
  let ?cs = "map (\<lambda>j. softmax (scores (parameters s) (fitIntercept s) (col dataset j)))
                                  [0..<unat (n_cols dataset)]"
  have "col \<lparr>n_rows = n_rows (parameters s), n_cols = n_cols dataset, mem = concat ?cs\<rparr> j
      = ?cs ! j"
  proof (rule col_of_concat)
    show "\<forall>c\<in>set ?cs. length c = unat (n_rows (parameters s))"
      by (auto simp: length_softmax length_scores)
    show "j < length ?cs" using assms(2) by simp
  qed
  with assms show ?thesis by (simp add: Classify_probabilities_def)
qed

text \<open>
  The classification of the one point by the two-class model, evaluated.
\<close>

lemma Classify_labels_one_point: "Classify_labels two_class_model one_point = Inr [1]"
  by (simp add: Classify_labels_def FeatureSize_def col_def scores_def row_def elem_at_def
      dot_def augment_def upt_conv_Cons two_class_model_def one_point_def)

lemma Classify_probabilities_one_point:
  "Classify_probabilities two_class_model one_point = Inr one_point_probabilities"
  by (simp add: Classify_probabilities_def FeatureSize_def col_def scores_def row_def
      elem_at_def dot_def augment_def upt_conv_Cons Let_def two_class_model_def one_point_def
      one_point_probabilities_def)

subsection \<open>Classification\<close>

text \<open>
  C3: for every parameter matrix and every input dataset (of \<open>FeatureSize()\<close> rows, so
  that classification succeeds), the label produced for each sample by the labels-only
  \<open>Classify\<close> overload equals the arg-max, lowest index winning ties, of that sample's
  probability column produced by the probability-producing overloads on the same input
  and parameters.
\<close>

theorem Classify_argmax_consistent:
  assumes "n_rows dataset = FeatureSize s"
  shows "\<exists>labels P. Classify_labels s dataset = Inr labels \<and>
           Classify_probabilities s dataset = Inr P \<and>
           Classify_labels_probabilities s dataset = Inr (labels, P) \<and>
           length labels = unat (n_cols dataset) \<and>
           (\<forall>j<unat (n_cols dataset).
              unat (labels ! j) = argmax (col P j) \<and>
              (col P j \<noteq> [] \<longrightarrow>
                 unat (labels ! j) < length (col P j) \<and>
                 col P j ! unat (labels ! j) = Max (set (col P j)) \<and>
                 (\<forall>k<unat (labels ! j). col P j ! k < Max (set (col P j)))))"
proof -
  let ?z = "\<lambda>j. scores (parameters s) (fitIntercept s) (col dataset j)"
  let ?labels = "map (\<lambda>j. of_nat (argmax (?z j)) :: 'a word) [0..<unat (n_cols dataset)]"
  obtain P where P: "Classify_probabilities s dataset = Inr P"
    using assms by (simp add: Classify_probabilities_def)
  have L: "Classify_labels s dataset = Inr ?labels"
    using assms by (simp add: Classify_labels_def)
  have LP: "Classify_labels_probabilities s dataset = Inr (?labels, P)"
    by (simp add: Classify_labels_probabilities_def P L)
  have each: "unat (?labels ! j) = argmax (col P j) \<and>
              (col P j \<noteq> [] \<longrightarrow>
                 unat (?labels ! j) < length (col P j) \<and>
                 col P j ! unat (?labels ! j) = Max (set (col P j)) \<and>
                 (\<forall>k<unat (?labels ! j). col P j ! k < Max (set (col P j))))"
    if j: "j < unat (n_cols dataset)" for j
  proof -
    have colP: "col P j = softmax (?z j)"
      using col_Classify_probabilities [OF assms j] P by simp
    have am: "argmax (col P j) = argmax (?z j)"
      by (simp only: colP argmax_softmax)
    have bound: "argmax (?z j) < 2 ^ LENGTH('a)"
    proof (cases "?z j = []")
      case True
      then show ?thesis by simp
    next
      case False
      then have "argmax (?z j) < length (?z j)"
        using argmax_first_max by blast
      also have "\<dots> = unat (n_rows (parameters s))" by (rule length_scores)
      also have "\<dots> < 2 ^ LENGTH('a)" by (rule unsigned_less)
      finally show ?thesis .
    qed
    have "?labels ! j = of_nat (argmax (?z j))" using j by simp
    then have lab: "unat (?labels ! j) = argmax (col P j)"
      using bound am by (simp add: unat_of_nat)
    show ?thesis
      using lab argmax_first_max [of "col P j"] by (simp only: simp_thms) blast
  qed
  have len: "length ?labels = unat (n_cols dataset)" by simp
  from each have "\<forall>j<unat (n_cols dataset).
      unat (?labels ! j) = argmax (col P j) \<and>
      (col P j \<noteq> [] \<longrightarrow>
         unat (?labels ! j) < length (col P j) \<and>
         col P j ! unat (?labels ! j) = Max (set (col P j)) \<and>
         (\<forall>k<unat (?labels ! j). col P j ! k < Max (set (col P j))))"
    by blast
  with P L LP len show ?thesis by blast
qed

text \<open>
  Arg-max consistency for the two-class model on the one point: the label is \<open>1\<close>, the
  index of the larger probability.
\<close>

theorem Classify_argmax_consistent_witness:
  "n_rows one_point = FeatureSize two_class_model \<and>
   Classify_labels two_class_model one_point = Inr [1] \<and>
   Classify_probabilities two_class_model one_point = Inr one_point_probabilities \<and>
   unat ([1 :: 64 word] ! 0) = argmax (col one_point_probabilities 0) \<and>
   col one_point_probabilities 0 ! unat ([1 :: 64 word] ! 0)
     = Max (set (col one_point_probabilities 0))"
proof -
  have h: "n_rows one_point = FeatureSize two_class_model"
    by (simp add: FeatureSize_def two_class_model_def one_point_def)
  have j: "0 < unat (n_cols one_point)" by (simp add: one_point_def)
  have ne: "col one_point_probabilities 0 \<noteq> []"
    by (simp add: col_def one_point_probabilities_def)
  from Classify_argmax_consistent [OF h] obtain labels P
    where L: "Classify_labels two_class_model one_point = Inr labels"
      and P: "Classify_probabilities two_class_model one_point = Inr P"
      and each: "\<forall>j<unat (n_cols one_point).
              unat (labels ! j) = argmax (col P j) \<and>
              (col P j \<noteq> [] \<longrightarrow>
                 unat (labels ! j) < length (col P j) \<and>
                 col P j ! unat (labels ! j) = Max (set (col P j)) \<and>
                 (\<forall>k<unat (labels ! j). col P j ! k < Max (set (col P j))))"
    by blast
  have labels: "labels = [1]"
    using L by (simp add: Classify_labels_one_point)
  have probabilities: "P = one_point_probabilities"
    using P by (simp add: Classify_probabilities_one_point)
  from each j have "unat (labels ! 0) = argmax (col P 0) \<and>
      (col P 0 \<noteq> [] \<longrightarrow> col P 0 ! unat (labels ! 0) = Max (set (col P 0)))"
    by blast
  then have "unat ([1 :: 64 word] ! 0) = argmax (col one_point_probabilities 0) \<and>
      (col one_point_probabilities 0 \<noteq> [] \<longrightarrow>
         col one_point_probabilities 0 ! unat ([1 :: 64 word] ! 0)
           = Max (set (col one_point_probabilities 0)))"
    unfolding labels probabilities .
  with h ne Classify_labels_one_point Classify_probabilities_one_point
  show ?thesis by blast
qed

text \<open>
  C4: for every trained model (its parameter matrix has at least one class row) and
  every input dataset (of \<open>FeatureSize()\<close> rows), each column of the probability matrix
  returned by the probability-producing \<open>Classify\<close> overloads sums to \<open>1\<close>, the
  probabilities being the softmax with the maximum score subtracted, as in the objective
  function.
\<close>

theorem Classify_probabilities_normalized:
  assumes "n_rows dataset = FeatureSize s" and "0 < n_rows (parameters s)"
  shows "\<exists>labels P. Classify_probabilities s dataset = Inr P \<and>
           Classify_labels_probabilities s dataset = Inr (labels, P) \<and>
           n_cols P = n_cols dataset \<and>
           (\<forall>j<unat (n_cols dataset).
              col P j = softmax (scores (parameters s) (fitIntercept s) (col dataset j)) \<and>
              sum_list (col P j) = 1 \<and> (\<forall>p\<in>set (col P j). 0 < p))"
proof -
  let ?z = "\<lambda>j. scores (parameters s) (fitIntercept s) (col dataset j)"
  obtain P where P: "Classify_probabilities s dataset = Inr P"
    and nc: "n_cols P = n_cols dataset"
    using assms(1) by (simp add: Classify_probabilities_def)
  obtain labels where L: "Classify_labels s dataset = Inr labels"
    using assms(1) by (simp add: Classify_labels_def)
  have LP: "Classify_labels_probabilities s dataset = Inr (labels, P)"
    by (simp add: Classify_labels_probabilities_def P L)
  have each: "col P j = softmax (?z j) \<and> sum_list (col P j) = 1 \<and>
              (\<forall>p\<in>set (col P j). 0 < p)"
    if j: "j < unat (n_cols dataset)" for j
  proof -
    have colP: "col P j = softmax (?z j)"
      using col_Classify_probabilities [OF assms(1) j] P by simp
    have "0 < unat (n_rows (parameters s))"
      using assms(2) by (simp add: word_less_nat_alt)
    then have "?z j \<noteq> []"
      using length_scores [of "parameters s" "fitIntercept s" "col dataset j"] by auto
    then have "sum_list (softmax (?z j)) = 1" by (rule softmax_sum)
    moreover have "\<forall>p\<in>set (softmax (?z j)). 0 < p" by (rule softmax_pos)
    ultimately show ?thesis by (simp only: colP simp_thms)
  qed
  from each have "\<forall>j<unat (n_cols dataset).
      col P j = softmax (?z j) \<and> sum_list (col P j) = 1 \<and> (\<forall>p\<in>set (col P j). 0 < p)"
    by blast
  with P LP nc show ?thesis by blast
qed

text \<open>
  Normalisation for the two-class model on the one point.
\<close>

theorem Classify_probabilities_normalized_witness:
  "n_rows one_point = FeatureSize two_class_model \<and>
   0 < n_rows (parameters two_class_model) \<and>
   Classify_probabilities two_class_model one_point = Inr one_point_probabilities \<and>
   sum_list (col one_point_probabilities 0) = 1"
proof -
  have h1: "n_rows one_point = FeatureSize two_class_model"
    by (simp add: FeatureSize_def two_class_model_def one_point_def)
  have h2: "0 < n_rows (parameters two_class_model)"
    by (simp add: two_class_model_def)
  have j: "0 < unat (n_cols one_point)" by (simp add: one_point_def)
  from Classify_probabilities_normalized [OF h1 h2] j h1 h2 show ?thesis
    by (auto simp: Classify_probabilities_one_point)
qed

subsection \<open>Training\<close>

text \<open>
  When the precondition holds, \<open>Train\<close> returns an objective value and stores the
  optimizer's result.
\<close>

lemma Train_success:
  assumes "unat (n_cols data) = length labels" and "\<forall>l\<in>set labels. l < numClasses'"
  shows "\<exists>final out. Train s data labels numClasses' optimizer GetInitialPoint
            = (Inr out, s\<lparr>parameters := final\<rparr>)"
proof -
  have "\<not> (unat (n_cols data) \<noteq> length labels \<or> \<not> list_all (\<lambda>l. l < numClasses') labels)"
    using assms by (simp add: list_all_iff)
  then show ?thesis
    unfolding Train_def by (simp only: if_False Let_def case_prod_beta) blast
qed

text \<open>
  C2: for every call to \<open>Train\<close> in which \<open>data.columns \<noteq> labels.length\<close>, or in which
  some label is \<open>\<ge> numClasses\<close>, \<open>Train\<close> fails with an \<open>InvalidInput\<close> error and the stored
  parameter matrix, with the rest of the object, is left at its value before the call.
\<close>

theorem Train_invalid_input:
  assumes "unat (n_cols data) \<noteq> length labels \<or> (\<exists>l\<in>set labels. numClasses' \<le> l)"
  shows "fst (Train s data labels numClasses' optimizer GetInitialPoint) = Inl InvalidInput \<and>
         snd (Train s data labels numClasses' optimizer GetInitialPoint) = s \<and>
         parameters (snd (Train s data labels numClasses' optimizer GetInitialPoint))
           = parameters s"
proof -
  have "unat (n_cols data) \<noteq> length labels \<or> \<not> list_all (\<lambda>l. l < numClasses') labels"
    using assms by (auto simp: list_all_iff not_less)
  then have "Train s data labels numClasses' optimizer GetInitialPoint = (Inl InvalidInput, s)"
    unfolding Train_def by (rule if_P)
  then show ?thesis by simp
qed

text \<open>
  Two rejected calls on the two-class model: no label for the one point, and the label
  \<open>5\<close> with two classes.
\<close>

theorem Train_invalid_input_witness:
  "unat (n_cols one_point) \<noteq> length ([] :: 64 word list) \<and>
   (2 :: 64 word) \<le> 5 \<and>
   Train two_class_model one_point [] 2 keep_point zero_point
     = (Inl InvalidInput, two_class_model) \<and>
   Train two_class_model one_point [5] 2 keep_point zero_point
     = (Inl InvalidInput, two_class_model)"
proof -
  have length_differs: "unat (n_cols one_point) \<noteq> length ([] :: 64 word list)"
    by (simp add: one_point_def)
  have label_too_large: "(2 :: 64 word) \<le> 5" by simp
  have h1: "unat (n_cols one_point) \<noteq> length ([] :: 64 word list) \<or>
      (\<exists>l\<in>set ([] :: 64 word list). (2 :: 64 word) \<le> l)"
    using length_differs by (rule disjI1)
  have h2: "unat (n_cols one_point) \<noteq> length [5 :: 64 word] \<or>
      (\<exists>l\<in>set [5 :: 64 word]. (2 :: 64 word) \<le> l)"
    using label_too_large by simp
  from Train_invalid_input [OF h1, of two_class_model keep_point zero_point]
    Train_invalid_input [OF h2, of two_class_model keep_point zero_point]
    length_differs label_too_large
  show ?thesis by (simp add: prod_eq_iff)
qed

end
